theory Spec2Isabelle
  imports Main "HOL-Library.Multiset" "HOL-Library.Char_ord" "HOL-Library.List_Lexorder"
    "HOL-Library.Sublist"
begin

section \<open>Calendar dates and the library calls of \<open>habit.py\<close>\<close>

text \<open>
  A \<open>datetime.date\<close> is modelled by its proleptic Gregorian ordinal
  (\<open>date.toordinal()\<close>): comparison of dates is comparison of ordinals and
  \<open>d - timedelta(days=1)\<close> is the ordinal minus one. The smallest date of the library,
  \<open>date.min\<close> = 0001-01-01, has ordinal 1; subtracting a day from it raises
  \<open>OverflowError\<close>. \<open>datetime.strptime(d, '%Y-%m-%d').date()\<close> raises
  \<open>ValueError\<close> on a string that is not a date of that format. Both exceptions
  are results of the model.
\<close>

type_synonym date = int

datatype error = ValueError | OverflowError

definition date_min :: date where
  "date_min = 1"

definition minus_one_day :: "date \<Rightarrow> error + date" where
  "minus_one_day d = (if d - 1 < date_min then Inl OverflowError else Inr (d - 1))"

text \<open>
  The parser of the library is a parameter \<open>strptime\<close> of the functions that call it
  (\<open>None\<close> stands for the raised \<open>ValueError\<close>), and so is the clock:
  \<open>today\<close> is the value of \<open>datetime.now().date()\<close>.
  The list comprehension over \<open>dates\<close> parses from left to right and stops at the
  first string that does not parse.
\<close>

fun parse_dates :: "(string \<Rightarrow> date option) \<Rightarrow> string list \<Rightarrow> error + date list" where
  "parse_dates strptime [] = Inr []"
| "parse_dates strptime (d # dates) =
     (case strptime d of
        None \<Rightarrow> Inl ValueError
      | Some x \<Rightarrow> (case parse_dates strptime dates of
                    Inl e \<Rightarrow> Inl e
                  | Inr xs \<Rightarrow> Inr (x # xs)))"

subsection \<open>A parser for zero-padded ISO dates\<close>

text \<open>
  \<open>strptime_iso\<close> reads the ten characters \<open>YYYY-MM-DD\<close> and returns the ordinal of
  the date as \<open>date.toordinal()\<close> computes it (days before the year, days before the
  month, day of the month). It is the instance of \<open>strptime\<close> at which the theorems
  below are evaluated on concrete completion dates.
\<close>

definition digit :: "char \<Rightarrow> int option" where
  "digit c = (let n = (of_char c :: nat) in if 48 \<le> n \<and> n \<le> 57 then Some (int n - 48) else None)"

fun number :: "string \<Rightarrow> int option" where
  "number [] = None"
| "number cs = fold (\<lambda>c acc. case (acc, digit c) of (Some a, Some v) \<Rightarrow> Some (10 * a + v) | _ \<Rightarrow> None) cs (Some 0)"

definition is_leap :: "int \<Rightarrow> bool" where
  "is_leap y = (y mod 4 = 0 \<and> (y mod 100 \<noteq> 0 \<or> y mod 400 = 0))"

definition days_in_month :: "int \<Rightarrow> int \<Rightarrow> int" where
  "days_in_month y m =
     (if m = 2 then (if is_leap y then 29 else 28)
      else if m = 4 \<or> m = 6 \<or> m = 9 \<or> m = 11 then 30 else 31)"

definition days_before_year :: "int \<Rightarrow> int" where
  "days_before_year y = (y - 1) * 365 + (y - 1) div 4 - (y - 1) div 100 + (y - 1) div 400"

definition days_before_month :: "int \<Rightarrow> int \<Rightarrow> int" where
  "days_before_month y m = sum_list (map (days_in_month y) [1 .. m - 1])"

definition ymd2ord :: "int \<Rightarrow> int \<Rightarrow> int \<Rightarrow> date" where
  "ymd2ord y m d = days_before_year y + days_before_month y m + d"

definition strptime_iso :: "string \<Rightarrow> date option" where
  "strptime_iso s =
     (if length s = 10 \<and> s ! 4 = CHR ''-'' \<and> s ! 7 = CHR ''-'' then
        (case (number (take 4 s), number (take 2 (drop 5 s)), number (drop 8 s)) of
           (Some y, Some m, Some d) \<Rightarrow>
             if 1 \<le> y \<and> 1 \<le> m \<and> m \<le> 12 \<and> 1 \<le> d \<and> d \<le> days_in_month y m
             then Some (ymd2ord y m d) else None
         | _ \<Rightarrow> None)
      else None)"

section \<open>The streak engine\<close>

text \<open>
  The \<open>for\<close> loop of \<open>calculate_streak\<close> over \<open>sorted_dates\<close>, with its two
  variables \<open>current_date\<close> and \<open>streak\<close>; \<open>break\<close> returns the counter.
\<close>

fun streak_loop :: "date list \<Rightarrow> date \<Rightarrow> nat \<Rightarrow> error + nat" where
  "streak_loop [] current_date streak = Inr streak"
| "streak_loop (d # sorted_dates) current_date streak =
     (if d = current_date then
        (case minus_one_day current_date of
           Inl e \<Rightarrow> Inl e
         | Inr current_date' \<Rightarrow> streak_loop sorted_dates current_date' (streak + 1))
      else Inr streak)"

text \<open>
  \<open>sorted(..., reverse=True)\<close> is \<open>rev (sort ...)\<close>; \<open>sorted_dates[0]\<close> is read only
  after the check that \<open>dates\<close> is not empty.
\<close>

definition calculate_streak :: "(string \<Rightarrow> date option) \<Rightarrow> date \<Rightarrow> string list \<Rightarrow> error + nat" where
  "calculate_streak strptime today dates =
     (if dates = [] then Inr 0
      else
        (case parse_dates strptime dates of
           Inl e \<Rightarrow> Inl e
         | Inr ds \<Rightarrow>
             (let sorted_dates = rev (sort ds) in
              (case minus_one_day today of
                 Inl e \<Rightarrow> Inl e
               | Inr yesterday \<Rightarrow>
                   if hd sorted_dates \<notin> set [today, yesterday] then Inr 0
                   else
                     streak_loop sorted_dates
                       (if hd sorted_dates = today then today else yesterday) 0))))"

subsection \<open>The reference algorithm of the specification\<close>

text \<open>
  The algorithm as section 4.2 of the specification words it, on parsed dates: the dates
  are made distinct and sorted descending; the streak is 0 when the most recent date is
  neither today nor the day before; otherwise the cursor starts at today or at the day
  before and \<open>walk\<close> counts the dates that equal the cursor, moving the cursor back one
  day each time, up to the first gap.
\<close>

fun walk :: "date list \<Rightarrow> date \<Rightarrow> nat" where
  "walk [] cursor = 0"
| "walk (d # ds) cursor = (if d = cursor then Suc (walk ds (cursor - 1)) else 0)"

definition reference_streak :: "date \<Rightarrow> date list \<Rightarrow> nat" where
  "reference_streak today ds =
     (if ds = [] then 0
      else
        (let sorted_distinct = rev (sort (remdups ds)); most_recent = hd sorted_distinct in
         if most_recent \<noteq> today \<and> most_recent \<noteq> today - 1 then 0
         else walk sorted_distinct (if most_recent = today then today else today - 1)))"

section \<open>Text\<close>

text \<open>
  A Python \<open>str\<close> is modelled by the list of the bytes of its UTF-8 encoding. The
  characters outside ASCII that the messages of the source use are named here.
  The characters for which \<open>str.isspace\<close> holds are listed by their encodings in
  \<open>whitespace\<close>; \<open>str.strip()\<close> and \<open>str.split()\<close> work on them. No encoding of
  a whitespace character begins inside the encoding of another character, so reading the
  bytes from left to right finds exactly the whitespace characters of the text.
\<close>

definition newline :: string where "newline = [CHR 0x0A]"
definition apostrophe :: string where "apostrophe = [CHR 0x27]"
definition double_quote :: string where "double_quote = [CHR 0x22]"
definition memo :: string where "memo = [CHR 0xF0, CHR 0x9F, CHR 0x93, CHR 0x9D]"
definition check_mark :: string where "check_mark = [CHR 0xE2, CHR 0x9C, CHR 0x85]"
definition warning_sign :: string where "warning_sign = [CHR 0xE2, CHR 0x9A, CHR 0xA0, CHR 0xEF, CHR 0xB8, CHR 0x8F]"
definition fire :: string where "fire = [CHR 0xF0, CHR 0x9F, CHR 0x94, CHR 0xA5]"
definition flexed_biceps :: string where "flexed_biceps = [CHR 0xF0, CHR 0x9F, CHR 0x92, CHR 0xAA]"
definition party_popper :: string where "party_popper = [CHR 0xF0, CHR 0x9F, CHR 0x8E, CHR 0x89]"
definition chart_increasing :: string where "chart_increasing = [CHR 0xF0, CHR 0x9F, CHR 0x93, CHR 0x88]"
definition bar_chart :: string where "bar_chart = [CHR 0xF0, CHR 0x9F, CHR 0x93, CHR 0x8A]"
definition bullet :: string where "bullet = [CHR 0xE2, CHR 0x80, CHR 0xA2]"

fun str_nat :: "nat \<Rightarrow> string" where
  "str_nat n = (if n < 10 then [char_of (48 + n)] else str_nat (n div 10) @ [char_of (48 + n mod 10)])"

definition str_int :: "int \<Rightarrow> string" where
  "str_int i = (if i < 0 then ''-'' @ str_nat (nat (- i)) else str_nat (nat i))"

text \<open>
  The whitespace characters of Python: U+0009 to U+000D, U+001C to U+0020, U+0085, U+00A0,
  U+1680, U+2000 to U+200A, U+2028, U+2029, U+202F, U+205F and U+3000.
\<close>

definition whitespace :: "string list" where
  "whitespace =
     map (\<lambda>c. [c])
       [CHR 0x09, CHR 0x0A, CHR 0x0B, CHR 0x0C, CHR 0x0D,
        CHR 0x1C, CHR 0x1D, CHR 0x1E, CHR 0x1F, CHR 0x20] @
     [[CHR 0xC2, CHR 0x85], [CHR 0xC2, CHR 0xA0], [CHR 0xE1, CHR 0x9A, CHR 0x80]] @
     map (\<lambda>c. [CHR 0xE2, CHR 0x80, c])
       [CHR 0x80, CHR 0x81, CHR 0x82, CHR 0x83, CHR 0x84, CHR 0x85, CHR 0x86, CHR 0x87,
        CHR 0x88, CHR 0x89, CHR 0x8A, CHR 0xA8, CHR 0xA9, CHR 0xAF] @
     [[CHR 0xE2, CHR 0x81, CHR 0x9F], [CHR 0xE3, CHR 0x80, CHR 0x80]]"

text \<open>
  \<open>drop_leading ps s\<close> removes from the front of \<open>s\<close> every character whose encoding
  is in \<open>ps\<close>. \<open>str.strip()\<close> removes the whitespace characters at both ends; at the
  end of the text the encodings are read backwards.
\<close>

fun drop_leading :: "string list \<Rightarrow> string \<Rightarrow> string" where
  "drop_leading ps [] = []"
| "drop_leading ps (c # cs) =
     (case find (\<lambda>p. prefix p (c # cs)) ps of
        None \<Rightarrow> c # cs
      | Some p \<Rightarrow> drop_leading ps (drop (length p - 1) cs))"

definition strip :: "string \<Rightarrow> string" where
  "strip s = rev (drop_leading (map rev whitespace) (rev (drop_leading whitespace s)))"

text \<open>
  \<open>str.split()\<close> without a separator: the maximal runs of characters that are not
  whitespace, in order; \<open>word\<close> is the run being read.
\<close>

fun split_loop :: "string \<Rightarrow> string \<Rightarrow> string list" where
  "split_loop [] word = (if word = [] then [] else [word])"
| "split_loop (c # cs) word =
     (case find (\<lambda>p. prefix p (c # cs)) whitespace of
        None \<Rightarrow> split_loop cs (word @ [c])
      | Some p \<Rightarrow> (if word = [] then [] else [word]) @ split_loop (drop (length p - 1) cs) [])"

definition str_split :: "string \<Rightarrow> string list" where
  "str_split s = split_loop s []"

fun join :: "string \<Rightarrow> string list \<Rightarrow> string" where
  "join sep [] = []"
| "join sep [x] = x"
| "join sep (x # y # ys) = x @ sep @ join sep (y # ys)"

section \<open>The habit store\<close>

text \<open>
  The SQLite database of \<open>init_db\<close>: the rows of the tables \<open>habits\<close> and
  \<open>completions\<close> in rowid order, and for each table the largest rowid ever given
  (\<open>sqlite_sequence\<close>, kept for \<open>AUTOINCREMENT\<close> columns, so that the id of a deleted row
  is never given again). The column \<open>id\<close> of the two tables is \<open>row_id\<close> and
  \<open>completion_id\<close>. Every function of the source opens its own connection, runs its
  statements and commits or closes; the model passes the database in and returns it.
  Faults of the storage layer itself (no file, a locked database, a full disk, a rowid
  beyond 64 bits) are outside the model.
\<close>

record habit_row =
  row_id :: nat
  user_id :: int
  habit_name :: string
  created_date :: string

record completion_row =
  completion_id :: nat
  habit_id :: nat
  completion_date :: string

record database =
  habits :: "habit_row list"
  completions :: "completion_row list"
  habits_seq :: nat
  completions_seq :: nat

definition init_db :: database where
  "init_db = \<lparr>habits = [], completions = [], habits_seq = 0, completions_seq = 0\<rparr>"

text \<open>
  The rowid of an inserted row of an \<open>AUTOINCREMENT\<close> table: one more than the largest
  of the rowids in the table and the recorded sequence value.
\<close>

definition next_id :: "nat \<Rightarrow> nat list \<Rightarrow> nat" where
  "next_id seq ids = Suc (fold max ids seq)"

text \<open>
  SQLite enforces foreign keys, and so runs \<open>ON DELETE CASCADE\<close>, only on a connection
  that has executed \<open>PRAGMA foreign_keys = ON\<close>. A connection of \<open>sqlite3.connect\<close>
  starts with the pragma off, and no function of the source executes it.
\<close>

definition foreign_keys :: bool where
  "foreign_keys = False"

text \<open>
  The \<open>SELECT\<close> of \<open>get_user_habits\<close> has no \<open>ORDER BY\<close>. SQLite answers it through
  the index of \<open>UNIQUE(user_id, habit_name)\<close>, so the rows of a user come ordered by
  \<open>habit_name\<close> (compared byte by byte), and rows of the same name by rowid.
\<close>

definition get_user_habits :: "database \<Rightarrow> int \<Rightarrow> (nat \<times> string \<times> string) list" where
  "get_user_habits db uid =
     map (\<lambda>h. (row_id h, habit_name h, created_date h))
       (sort_key habit_name (filter (\<lambda>h. user_id h = uid) (habits db)))"

text \<open>
  \<open>ORDER BY completion_date DESC\<close> on a \<open>TEXT\<close> column compares the bytes of the
  strings, which is the lexicographic order of \<open>string\<close>.
\<close>

definition get_habit_completions :: "database \<Rightarrow> nat \<Rightarrow> string list" where
  "get_habit_completions db hid =
     rev (sort (map completion_date (filter (\<lambda>c. habit_id c = hid) (completions db))))"

text \<open>
  \<open>now\<close> is the value of \<open>datetime.now().strftime('%Y-%m-%d')\<close>. The
  \<open>IntegrityError\<close> of the \<open>INSERT\<close> is the violation of \<open>UNIQUE(user_id, habit_name)\<close>.
\<close>

definition add_habit_to_db :: "string \<Rightarrow> database \<Rightarrow> int \<Rightarrow> string \<Rightarrow> bool \<times> database" where
  "add_habit_to_db now db uid name =
     (if \<exists>h \<in> set (habits db). user_id h = uid \<and> habit_name h = name then (False, db)
      else
        (let new_id = next_id (habits_seq db) (map row_id (habits db)) in
         (True,
          db\<lparr>habits := habits db @
                 [\<lparr>row_id = new_id, user_id = uid, habit_name = name, created_date = now\<rparr>],
             habits_seq := new_id\<rparr>)))"

text \<open>
  \<open>fetchone()\<close> is the first row of the \<open>SELECT\<close>; the \<open>IntegrityError\<close> of the
  \<open>INSERT\<close> is the violation of \<open>UNIQUE(habit_id, completion_date)\<close>.
\<close>

definition complete_habit_in_db ::
    "database \<Rightarrow> int \<Rightarrow> string \<Rightarrow> string \<Rightarrow> (bool \<times> string) \<times> database" where
  "complete_habit_in_db db uid name date =
     (case filter (\<lambda>h. user_id h = uid \<and> habit_name h = name) (habits db) of
        [] \<Rightarrow> ((False, ''Habit not found''), db)
      | result # _ \<Rightarrow>
          (let hid = row_id result in
           if \<exists>c \<in> set (completions db). habit_id c = hid \<and> completion_date c = date
           then ((False, ''Already completed''), db)
           else
             (let new_id = next_id (completions_seq db) (map completion_id (completions db)) in
              ((True, ''Completed''),
               db\<lparr>completions := completions db @
                      [\<lparr>completion_id = new_id, habit_id = hid, completion_date = date\<rparr>],
                  completions_seq := new_id\<rparr>))))"

text \<open>
  \<open>DELETE FROM habits WHERE user_id = ? AND habit_name = ?\<close>; \<open>rowcount\<close> is the number
  of rows of \<open>habits\<close> that the statement deleted. The completions of a deleted habit
  are deleted with it only when the connection enforces foreign keys.
\<close>

definition delete_habit_from_db :: "database \<Rightarrow> int \<Rightarrow> string \<Rightarrow> bool \<times> database" where
  "delete_habit_from_db db uid name =
     (let matching = filter (\<lambda>h. user_id h = uid \<and> habit_name h = name) (habits db);
          remaining = filter (\<lambda>h. \<not> (user_id h = uid \<and> habit_name h = name)) (habits db);
          rowcount = length matching;
          deleted = (0 < rowcount)
      in (deleted,
          db\<lparr>habits := remaining,
             completions :=
               (if foreign_keys
                then filter (\<lambda>c. habit_id c \<notin> set (map row_id matching)) (completions db)
                else completions db)\<rparr>))"

section \<open>The text-generation collaborator\<close>

text \<open>
  \<open>model.generate_content(prompt, ...)\<close> followed by \<open>response.text\<close> is a parameter
  \<open>generate_content\<close>: from the state of the service and the prompt it gives the
  generated text, or \<open>None\<close> when the call raises (the service fails or the 10 second
  timeout passes), and the next state of the service. Every request goes through this
  function, so the state that a caller returns tells how many requests it made. The
  generation parameters and the log line of the \<open>except\<close> branch are left out.
\<close>

type_synonym 's generate_content = "'s \<Rightarrow> string \<Rightarrow> string option \<times> 's"

definition motivation_prompt :: "string \<Rightarrow> int \<Rightarrow> int \<Rightarrow> string" where
  "motivation_prompt name streak total_completions =
     ''Generate a SHORT, encouraging message (1-2 sentences max) for someone who just completed their habit.'' @
     newline @ ''    '' @ newline @ ''Habit: '' @ name @ newline @ ''Current Streak: '' @
     str_int streak @ '' days'' @ newline @ ''Total Completions: '' @
     str_int total_completions @ newline @ newline @
     ''Make it personal, enthusiastic, and reference the streak if it'' @ apostrophe @
     ''s notable. Keep it under 50 words.''"

definition generate_motivation ::
    "'s generate_content \<Rightarrow> 's \<Rightarrow> string \<Rightarrow> int \<Rightarrow> int \<Rightarrow> string \<times> 's" where
  "generate_motivation generate_content svc name streak total_completions =
     (case generate_content svc (motivation_prompt name streak total_completions) of
        (Some text, svc') \<Rightarrow> (strip text, svc')
      | (None, svc') \<Rightarrow>
          (if streak \<ge> 7 then
             ''Incredible! '' @ str_int streak @ '' days strong! You'' @ apostrophe @
             ''re building a real habit here! '' @ fire
           else if streak \<ge> 3 then
             ''Amazing work! '' @ str_int streak @
             '' days in a row! Keep this momentum going! '' @ flexed_biceps
           else
             ''Great job! Every completion counts towards your success! '' @ party_popper,
           svc'))"

text \<open>
  The summary of \<open>ai_chat_assistant\<close> is built before the \<open>try\<close>: an exception of
  \<open>calculate_streak\<close> there is the result of the function, and no request is made.
\<close>

fun habits_summary_lines ::
    "(string \<Rightarrow> date option) \<Rightarrow> date \<Rightarrow> database \<Rightarrow> (nat \<times> string \<times> string) list \<Rightarrow> error + string list" where
  "habits_summary_lines strptime today db [] = Inr []"
| "habits_summary_lines strptime today db (h # user_habits_data) =
     (case calculate_streak strptime today (get_habit_completions db (fst h)) of
        Inl e \<Rightarrow> Inl e
      | Inr streak \<Rightarrow>
          (case habits_summary_lines strptime today db user_habits_data of
             Inl e \<Rightarrow> Inl e
           | Inr ls \<Rightarrow>
               Inr ((''- '' @ fst (snd h) @ '' (Streak: '' @ str_nat streak @ '' days)'') # ls)))"

definition chat_prompt :: "string \<Rightarrow> string \<Rightarrow> string" where
  "chat_prompt habits_summary user_message =
     ''You are a helpful habit-building coach. The user has these habits:'' @ newline @
     habits_summary @ newline @ newline @ ''User question: '' @ double_quote @
     user_message @ double_quote @ newline @ newline @
     ''Provide a helpful, concise response (2-3 sentences max). Be encouraging and actionable. If they ask about their habits, reference their actual data.''"

definition ai_chat_assistant ::
    "'s generate_content \<Rightarrow> 's \<Rightarrow> (string \<Rightarrow> date option) \<Rightarrow> date \<Rightarrow> database \<Rightarrow>
     string \<Rightarrow> (nat \<times> string \<times> string) list \<Rightarrow> (error + string) \<times> 's" where
  "ai_chat_assistant generate_content svc strptime today db user_message user_habits_data =
     (case (if user_habits_data \<noteq> []
            then map_sum id (join newline) (habits_summary_lines strptime today db user_habits_data)
            else Inr ''No habits yet'') of
        Inl e \<Rightarrow> (Inl e, svc)
      | Inr habits_summary \<Rightarrow>
          (case generate_content svc (chat_prompt habits_summary user_message) of
             (Some text, svc') \<Rightarrow> (Inr (strip text), svc')
           | (None, svc') \<Rightarrow>
               (Inr (
                  ''I'' @ apostrophe @
                  ''m having trouble getting a response right now. Try a simpler question or try again in a moment!''),
                svc')))"

section \<open>Command handlers\<close>

text \<open>
  A handler is modelled by the text of its reply and the database it leaves.
  \<open>args\<close> is \<open>context.args\<close>. The \<open>CommandHandler\<close> of the bot library sets it
  from the text of the command message to \<open>message.text.split()[1:]\<close>, the words after
  the command; \<open>command_args\<close> is that expression.
\<close>

definition command_args :: "string \<Rightarrow> string list" where
  "command_args text = tl (str_split text)"

definition add_habit :: "string \<Rightarrow> database \<Rightarrow> int \<Rightarrow> string list \<Rightarrow> string \<times> database" where
  "add_habit now db uid args =
     (if args = [] then
        (memo @ '' Please specify a habit name.'' @ newline @
         ''Example: `/addhabit Drink water`'',
         db)
      else
        (let name = strip (join '' '' args) in
         case add_habit_to_db now db uid name of
           (True, db') \<Rightarrow>
             (
              check_mark @ '' Habit '' @ apostrophe @ name @ apostrophe @
              '' added successfully!'' @ newline @ newline @
              ''Use /complete to mark it as done today.'',
              db')
         | (False, db') \<Rightarrow>
             (warning_sign @ '' You already have a habit called '' @ apostrophe @ name @
              apostrophe @ ''!'', db')))"

text \<open>
  The first loop of \<open>stats\<close>, over the habits of the user, with its three
  accumulators. The message is built from them; its second loop adds one entry for each
  habit, and \<open>sorted(habit_data, key=lambda x: x[1], reverse=True)\<close> is stable, as
  \<open>sort_key\<close> on the negated streak is.
\<close>

fun stats_loop ::
    "(string \<Rightarrow> date option) \<Rightarrow> date \<Rightarrow> database \<Rightarrow> (nat \<times> string \<times> string) list \<Rightarrow>
     (string \<times> nat \<times> nat) list \<Rightarrow> nat \<Rightarrow> nat \<Rightarrow>
     error + ((string \<times> nat \<times> nat) list \<times> nat \<times> nat)" where
  "stats_loop strptime today db [] habit_data total_completions max_streak =
     Inr (habit_data, total_completions, max_streak)"
| "stats_loop strptime today db ((hid, name, created) # user_habits) habit_data total_completions max_streak =
     (let dates = get_habit_completions db hid in
      case calculate_streak strptime today dates of
        Inl e \<Rightarrow> Inl e
      | Inr streak \<Rightarrow>
          stats_loop strptime today db user_habits
            (habit_data @ [(name, streak, length dates)])
            (total_completions + length dates)
            (max max_streak streak))"

definition stats :: "(string \<Rightarrow> date option) \<Rightarrow> date \<Rightarrow> database \<Rightarrow> int \<Rightarrow> error + string" where
  "stats strptime today db uid =
     (let user_habits = get_user_habits db uid in
      if user_habits = [] then
        Inr (''You don'' @ apostrophe @ ''t have any habits yet.'' @ newline @
             ''Use /addhabit to create one!'')
      else
        (case stats_loop strptime today db user_habits [] 0 0 of
           Inl e \<Rightarrow> Inl e
         | Inr (habit_data, total_completions, max_streak) \<Rightarrow>
             Inr (
                chart_increasing @ '' *Your Statistics:*'' @ newline @ newline @
                bar_chart @ '' Total Habits: '' @ str_nat (length user_habits) @ newline @
                check_mark @ '' Total Completions: '' @ str_nat total_completions @
                newline @ fire @ '' Best Streak: '' @ str_nat max_streak @ '' days'' @
                newline @ newline @ ''*Habit Details:*'' @ newline @ newline @
                concat (map (\<lambda>(name, streak, total).
                          bullet @ '' *'' @ name @ ''*'' @ newline @ ''  Streak: '' @
                          str_nat streak @ '' '' @ fire @ '' | Total: '' @ str_nat total @
                          '' '' @ check_mark @ newline @ newline)
                  (sort_key (\<lambda>(name, streak, total). - int streak) habit_data)))))"

section \<open>Properties of the streak engine\<close>

lemma parse_dates_cases:
  "parse_dates strptime dates =
     (if \<forall>s \<in> set dates. strptime s \<noteq> None
      then Inr (map (\<lambda>s. the (strptime s)) dates) else Inl ValueError)"
  by (induction dates) (auto split: option.splits sum.splits)

lemma streak_loop_sound:
  "streak_loop xs c k = Inr n \<Longrightarrow> k \<le> n \<and> (\<forall>i < n - k. c - int i \<in> set xs)"
proof (induction xs arbitrary: c k)
  case Nil
  then show ?case by simp
next
  case (Cons d xs)
  show ?case
  proof (cases "d = c")
    case False
    with Cons.prems show ?thesis by simp
  next
    case True
    with Cons.prems have ov: "minus_one_day c = Inr (c - 1)" and rec: "streak_loop xs (c - 1) (k + 1) = Inr n"
      by (auto simp: minus_one_day_def split: if_splits)
    from Cons.IH [OF rec] have le: "k + 1 \<le> n" and run: "\<forall>i < n - (k + 1). c - 1 - int i \<in> set xs"
      by auto
    have "c - int i \<in> set (d # xs)" if "i < n - k" for i
    proof (cases i)
      case 0
      with True show ?thesis by simp
    next
      case (Suc j)
      with that have "j < n - (k + 1)" by simp
      with run have "c - 1 - int j \<in> set xs" by blast
      with Suc show ?thesis by (simp add: algebra_simps)
    qed
    with le show ?thesis by simp
  qed
qed

lemma streak_loop_total:
  "\<forall>d \<in> set xs. date_min < d \<Longrightarrow> \<exists>n. streak_loop xs c k = Inr n"
  by (induction xs arbitrary: c k) (auto simp: minus_one_day_def)

lemma streak_loop_gap:
  "sorted_wrt (>) xs \<Longrightarrow> \<forall>d \<in> set xs. d \<le> c \<Longrightarrow> streak_loop xs c k = Inr n \<Longrightarrow>
   c - int (n - k) \<notin> set xs"
proof (induction xs arbitrary: c k)
  case Nil
  then show ?case by simp
next
  case (Cons d xs)
  show ?case
  proof (cases "d = c")
    case False
    with Cons.prems have "n = k" "d < c" "\<forall>x \<in> set xs. x < d" by auto
    then show ?thesis by auto
  next
    case True
    with Cons.prems have rec: "streak_loop xs (c - 1) (k + 1) = Inr n"
      by (auto simp: minus_one_day_def split: if_splits)
    from Cons.prems True have below: "\<forall>x \<in> set xs. x \<le> c - 1" and srt: "sorted_wrt (>) xs"
      by auto
    from streak_loop_sound [OF rec] have le: "k + 1 \<le> n" by simp
    from le have eq: "c - 1 - int (n - (k + 1)) = c - int (n - k)" by linarith
    from Cons.IH [OF srt below rec] have "c - int (n - k) \<notin> set xs" unfolding eq .
    moreover from le True have "c - int (n - k) \<noteq> d" by simp
    ultimately show ?thesis by simp
  qed
qed

lemma streak_loop_walk:
  "\<forall>d \<in> set xs. date_min < d \<Longrightarrow> streak_loop xs c k = Inr (k + walk xs c)"
  by (induction xs arbitrary: c k) (auto simp: minus_one_day_def)

lemma sorted_desc_rev_sort: "sorted_wrt (\<ge>) (rev (sort (ds :: int list)))"
  by (simp add: sorted_wrt_rev) 

lemma strict_desc_rev_sort: "distinct ds \<Longrightarrow> sorted_wrt (>) (rev (sort (ds :: int list)))"
  by (simp add: sorted_wrt_rev strict_sorted_iff)

lemma hd_rev_sort:
  fixes ds :: "int list"
  assumes "ds \<noteq> []"
  shows "hd (rev (sort ds)) = Max (set ds)"
proof -
  from assms have "rev (sort ds) \<noteq> []" by (metis length_0_conv length_rev length_sort)
  then obtain x xs where eq: "rev (sort ds) = x # xs" by (cases "rev (sort ds)") auto
  have "sorted_wrt (\<ge>) (x # xs)" using sorted_desc_rev_sort [of ds] by (simp only: eq)
  then have ge: "\<forall>y \<in> set (x # xs). y \<le> x" by auto
  have sets: "set (x # xs) = set ds" by (metis eq set_rev set_sort)
  have "Max (set ds) = x"
    by (rule Max_eqI) (use ge sets in auto)
  with eq show ?thesis by simp
qed

lemma le_Max_rev_sort:
  fixes ds :: "int list"
  shows "\<forall>d \<in> set (rev (sort ds)). d \<le> Max (set ds)"
  by simp

lemma calculate_streak_eq:
  assumes ne: "dates \<noteq> []"
    and parse: "parse_dates strptime dates = Inr ds"
    and today: "date_min < today"
  shows "calculate_streak strptime today dates =
           (if Max (set ds) \<noteq> today \<and> Max (set ds) \<noteq> today - 1 then Inr 0
            else streak_loop (rev (sort ds)) (Max (set ds)) 0)"
proof -
  from parse ne have "ds \<noteq> []" by (cases dates) (auto split: option.splits sum.splits)
  then have hd: "hd (rev (sort ds)) = Max (set ds)" by (rule hd_rev_sort)
  from today have y: "minus_one_day today = Inr (today - 1)" by (simp add: minus_one_day_def)
  show ?thesis
    using ne by (auto simp: calculate_streak_def parse y hd Let_def)
qed

lemma run_le_card:
  assumes "\<forall>i < n. c - int i \<in> S" and "finite S"
  shows "n \<le> card S"
proof -
  have "inj_on (\<lambda>i. c - int i) {..<n}" by (auto simp: inj_on_def)
  then have "card ((\<lambda>i. c - int i) ` {..<n}) = n" by (simp add: card_image)
  moreover have "(\<lambda>i. c - int i) ` {..<n} \<subseteq> S" using assms(1) by auto
  ultimately show ?thesis using card_mono [OF assms(2)] by metis
qed

lemma run_unique:
  assumes "\<forall>i < n. c - int i \<in> S" and "c - int m \<notin> S"
  shows "n \<le> m"
  using assms by (meson not_le)


lemma parse_dates_perm:
  assumes "mset dates' = mset dates"
  shows "(case parse_dates strptime dates of
            Inl e \<Rightarrow> parse_dates strptime dates' = Inl e
          | Inr ds \<Rightarrow> \<exists>ds'. parse_dates strptime dates' = Inr ds' \<and> mset ds' = mset ds)"
proof -
  from assms have set: "set dates' = set dates" by (rule mset_eq_setD)
  from assms have "mset (map (\<lambda>s. the (strptime s)) dates') = mset (map (\<lambda>s. the (strptime s)) dates)"
    by (metis mset_map)
  with set show ?thesis by (simp add: parse_dates_cases)
qed

lemma calculate_streak_perm:
  assumes "mset dates' = mset dates"
  shows "calculate_streak strptime today dates' = calculate_streak strptime today dates"
proof (cases "parse_dates strptime dates")
  case (Inl e)
  with parse_dates_perm [OF assms, of strptime] have "parse_dates strptime dates' = Inl e" by simp
  moreover from assms have "dates' = [] \<longleftrightarrow> dates = []" by (metis mset_zero_iff)
  ultimately show ?thesis using Inl by (simp add: calculate_streak_def)
next
  case (Inr ds)
  with parse_dates_perm [OF assms, of strptime]
  obtain ds' where p: "parse_dates strptime dates' = Inr ds'" and m: "mset ds' = mset ds" by auto
  from m have "sort ds' = sort ds" by (simp add: properties_for_sort)
  moreover from assms have "dates' = [] \<longleftrightarrow> dates = []" by (metis mset_zero_iff)
  ultimately show ?thesis using Inr p by (simp add: calculate_streak_def)
qed

lemma calculate_streak_dup_le:
  assumes parse: "parse_dates strptime dates = Inr ds"
    and parse': "parse_dates strptime uniq = Inr us"
    and dist: "distinct us"
    and same: "set us = set ds"
    and today: "date_min < today"
    and valid: "\<forall>d \<in> set ds. date_min < d"
  shows "\<exists>n m. calculate_streak strptime today dates = Inr n \<and>
               calculate_streak strptime today uniq = Inr m \<and>
               n \<le> m \<and> m \<le> card (set ds) \<and> (distinct ds \<longrightarrow> n = m)"
proof (cases "ds = []")
  case True
  with same have "us = []" by simp
  with parse' have "uniq = []" by (cases uniq) (auto split: option.splits sum.splits)
  moreover from True parse have "dates = []" by (cases dates) (auto split: option.splits sum.splits)
  ultimately show ?thesis by (simp add: calculate_streak_def)
next
  case ds: False
  with same have us: "us \<noteq> []" by auto
  from ds parse have ne: "dates \<noteq> []" by auto
  from us parse' have ne': "uniq \<noteq> []" by auto
  let ?m = "Max (set ds)"
  note eq = calculate_streak_eq [OF ne parse today]
  note eq' = calculate_streak_eq [OF ne' parse' today, unfolded same]
  show ?thesis
  proof (cases "?m \<noteq> today \<and> ?m \<noteq> today - 1")
    case True
    with eq eq' show ?thesis by simp
  next
    case False
    let ?n = "walk (rev (sort ds)) ?m"
    let ?k = "walk (rev (sort us)) ?m"
    from valid have loop: "streak_loop (rev (sort ds)) ?m 0 = Inr ?n"
      by (simp add: streak_loop_walk)
    from valid same have loop': "streak_loop (rev (sort us)) ?m 0 = Inr ?k"
      by (simp add: streak_loop_walk)
    from streak_loop_sound [OF loop] have run: "\<forall>i < ?n. ?m - int i \<in> set ds" by simp
    from streak_loop_sound [OF loop'] same have run': "\<forall>i < ?k. ?m - int i \<in> set ds" by simp
    have "\<forall>d \<in> set (rev (sort us)). d \<le> ?m" using same by simp
    from streak_loop_gap [OF strict_desc_rev_sort [OF dist] this loop'] same
    have gap': "?m - int ?k \<notin> set ds" by simp
    from run gap' have le: "?n \<le> ?k" by (rule run_unique)
    from run' have card: "?k \<le> card (set ds)" by (rule run_le_card) simp
    have "?n = ?k" if "distinct ds"
    proof -
      from that dist same have "mset ds = mset us" by (simp add: set_eq_iff_mset_eq_distinct)
      then have "sort ds = sort us" by (simp add: properties_for_sort)
      then show ?thesis by simp
    qed
    with False eq eq' loop loop' le card show ?thesis by auto
  qed
qed


lemma parse_dates_nonempty:
  "parse_dates strptime dates = Inr ds \<Longrightarrow> dates \<noteq> [] \<Longrightarrow> ds \<noteq> []"
  by (cases dates) (auto split: option.splits sum.splits)

lemma reference_streak_eq:
  assumes "ds \<noteq> []" and "distinct ds"
  shows "reference_streak today ds =
           (if Max (set ds) \<noteq> today \<and> Max (set ds) \<noteq> today - 1 then 0
            else walk (rev (sort ds)) (Max (set ds)))"
  using assms by (auto simp: reference_streak_def Let_def hd_rev_sort distinct_remdups_id)

subsection \<open>Concrete completion dates\<close>

lemma iso_2024_03_10: "strptime_iso ''2024-03-10'' = Some 738955" by code_simp
lemma iso_2024_03_09: "strptime_iso ''2024-03-09'' = Some 738954" by code_simp
lemma iso_2024_03_08: "strptime_iso ''2024-03-08'' = Some 738953" by code_simp
lemma iso_2024_03_07: "strptime_iso ''2024-03-07'' = Some 738952" by code_simp

lemmas iso_simps = iso_2024_03_10 iso_2024_03_09 iso_2024_03_08 iso_2024_03_07

subsection \<open>The claims about \<open>calculate_streak\<close>\<close>

text \<open>
  In the theorems of this section \<open>ds\<close> are the dates that \<open>strptime\<close> reads from
  the strings \<open>dates\<close> (every string is a valid date). The clock and the stored dates
  are later than \<open>date.min\<close>, so that no \<open>timedelta\<close> subtraction overflows.
\<close>

text \<open>
  Claim C1. For a non-empty list of distinct calendar dates and a fixed \<open>today\<close>,
  \<open>calculate_streak\<close> returns the value of the reference algorithm of section 4.2:
  0 if the most recent date is neither today nor the day before; otherwise the length
  \<open>n\<close> of the maximal run of consecutive days that starts at the cursor (today if the
  most recent date is today, else yesterday) and goes backwards: the \<open>n\<close> days
  \<open>cursor, cursor - 1, ..., cursor - (n - 1)\<close> are all completion dates and
  \<open>cursor - n\<close>, the first gap, is not.
\<close>

theorem calculate_streak_refines_reference:
  assumes ne: "dates \<noteq> []"
    and parse: "parse_dates strptime dates = Inr ds"
    and dist: "distinct ds"
    and today: "date_min < today"
    and valid: "\<forall>d \<in> set ds. date_min < d"
  shows "calculate_streak strptime today dates = Inr (reference_streak today ds) \<and>
         (let most_recent = Max (set ds);
              cursor = (if most_recent = today then today else today - 1);
              n = reference_streak today ds
          in if most_recent \<noteq> today \<and> most_recent \<noteq> today - 1 then n = 0
             else (\<forall>i < n. cursor - int i \<in> set ds) \<and> cursor - int n \<notin> set ds)"
proof -
  from parse ne have ds: "ds \<noteq> []" by (rule parse_dates_nonempty)
  let ?xs = "rev (sort ds)"
  let ?m = "Max (set ds)"
  from valid have loop: "streak_loop ?xs ?m 0 = Inr (walk ?xs ?m)"
    by (simp add: streak_loop_walk)
  have code: "calculate_streak strptime today dates = Inr (reference_streak today ds)"
    by (simp add: calculate_streak_eq [OF ne parse today] reference_streak_eq [OF ds dist] loop)
  have run: "(\<forall>i < walk ?xs ?m. ?m - int i \<in> set ds) \<and> ?m - int (walk ?xs ?m) \<notin> set ds"
  proof
    from streak_loop_sound [OF loop] show "\<forall>i < walk ?xs ?m. ?m - int i \<in> set ds" by simp
    from streak_loop_gap [OF strict_desc_rev_sort [OF dist] le_Max_rev_sort loop]
    show "?m - int (walk ?xs ?m) \<notin> set ds" by simp
  qed
  have spec: "let most_recent = ?m;
                  cursor = (if most_recent = today then today else today - 1);
                  n = reference_streak today ds
              in if most_recent \<noteq> today \<and> most_recent \<noteq> today - 1 then n = 0
                 else (\<forall>i < n. cursor - int i \<in> set ds) \<and> cursor - int n \<notin> set ds"
  proof (cases "?m \<noteq> today \<and> ?m \<noteq> today - 1")
    case True
    then show ?thesis by (simp add: Let_def reference_streak_eq [OF ds dist])
  next
    case False
    then have cur: "(if ?m = today then today else today - 1) = ?m" by auto
    from False have n: "reference_streak today ds = walk ?xs ?m"
      by (auto simp: reference_streak_eq [OF ds dist])
    from False run show ?thesis
      unfolding Let_def cur n by auto
  qed
  from code spec show ?thesis by (rule conjI)
qed

theorem calculate_streak_refines_reference_witness:
  "calculate_streak strptime_iso 738955 [''2024-03-09'', ''2024-03-10'', ''2024-03-07''] = Inr 2 \<and>
   reference_streak 738955 [738954, 738955, 738952] = 2 \<and>
   738955 - int 2 \<notin> set [738954, 738955, 738952 :: int]"
proof -
  have p: "parse_dates strptime_iso [''2024-03-09'', ''2024-03-10'', ''2024-03-07'']
             = Inr [738954, 738955, 738952]"
    by (simp add: iso_simps)
  have r: "reference_streak 738955 [738954, 738955, 738952] = 2" by code_simp
  have m: "Max (set [738954, 738955, 738952 :: int]) = 738955" by simp
  from calculate_streak_refines_reference [OF _ p, of 738955]
  show ?thesis by (simp add: r m date_min_def)
qed

text \<open>
  Claim C2, as the code has it. \<open>calculate_streak\<close> sorts its input and never
  removes duplicates. Its result is the same on every permutation of the list. On a
  list with duplicated dates the result never exceeds the result on the distinct dates
  (so no date is counted twice, and the streak is at most the number of distinct dates),
  and the two results are equal when the list has no duplicate.
\<close>

theorem calculate_streak_permutation_duplicates:
  assumes perm: "mset dates' = mset dates"
    and parse: "parse_dates strptime dates = Inr ds"
    and parse': "parse_dates strptime uniq = Inr us"
    and dist: "distinct us"
    and same: "set us = set ds"
    and today: "date_min < today"
    and valid: "\<forall>d \<in> set ds. date_min < d"
  shows "calculate_streak strptime today dates' = calculate_streak strptime today dates \<and>
         (\<exists>n m. calculate_streak strptime today dates = Inr n \<and>
                calculate_streak strptime today uniq = Inr m \<and>
                n \<le> m \<and> m \<le> card (set ds) \<and> (distinct ds \<longrightarrow> n = m))"
proof
  from perm show "calculate_streak strptime today dates' = calculate_streak strptime today dates"
    by (rule calculate_streak_perm)
  from parse parse' dist same today valid
  show "\<exists>n m. calculate_streak strptime today dates = Inr n \<and>
              calculate_streak strptime today uniq = Inr m \<and>
              n \<le> m \<and> m \<le> card (set ds) \<and> (distinct ds \<longrightarrow> n = m)"
    by (rule calculate_streak_dup_le)
qed

theorem calculate_streak_permutation_duplicates_witness:
  "calculate_streak strptime_iso 738955 [''2024-03-09'', ''2024-03-10'', ''2024-03-10''] =
     calculate_streak strptime_iso 738955 [''2024-03-10'', ''2024-03-10'', ''2024-03-09''] \<and>
   (\<exists>n m. calculate_streak strptime_iso 738955 [''2024-03-10'', ''2024-03-10'', ''2024-03-09''] = Inr n \<and>
          calculate_streak strptime_iso 738955 [''2024-03-10'', ''2024-03-09''] = Inr m \<and>
          n \<le> m \<and> m \<le> card (set [738955, 738955, 738954 :: int]))"
proof -
  have p: "parse_dates strptime_iso [''2024-03-10'', ''2024-03-10'', ''2024-03-09'']
             = Inr [738955, 738955, 738954]"
    by (simp add: iso_simps)
  have p': "parse_dates strptime_iso [''2024-03-10'', ''2024-03-09''] = Inr [738955, 738954]"
    by (simp add: iso_simps)
  have m: "mset [''2024-03-09'', ''2024-03-10'', ''2024-03-10''] =
           mset [''2024-03-10'', ''2024-03-10'', ''2024-03-09'']"
    by simp
  have d: "distinct [738955, 738954 :: int]" by simp
  have s: "set [738955, 738954 :: int] = set [738955, 738955, 738954]" by simp
  have t: "date_min < 738955" by (simp add: date_min_def)
  have v: "\<forall>d \<in> set [738955, 738955, 738954 :: int]. date_min < d" by (simp add: date_min_def)
  from calculate_streak_permutation_duplicates [OF m p p' d s t v]
  show ?thesis by blast
qed

text \<open>
  Claim C2 as stated fails: with today = 2024-03-10 (ordinal 738955), the list with
  2024-03-10 twice and 2024-03-09 once has streak 1, since the second copy of today is
  compared with the cursor at yesterday and ends the loop; the distinct dates have
  streak 2.
\<close>

theorem calculate_streak_duplicates_counterexample:
  "calculate_streak strptime_iso 738955 [''2024-03-10'', ''2024-03-10'', ''2024-03-09''] = Inr 1 \<and>
   calculate_streak strptime_iso 738955 [''2024-03-10'', ''2024-03-09''] = Inr 2"
  by (simp add: calculate_streak_def iso_simps minus_one_day_def date_min_def)

text \<open>
  Claim C6. With \<open>today\<close> fixed and \<open>s0, s1, s2, s3\<close> the strings of today and of
  the one, two and three days before: the streak of \<open>{today}\<close> is 1, of
  \<open>{today - 1}\<close> is 1, of \<open>{today - 2}\<close> is 0, of the empty list is 0, of
  \<open>{today, today - 1, today - 2, today - 3}\<close> is 4 and of \<open>{today, today - 2}\<close> is 1.
\<close>

theorem calculate_streak_examples:
  assumes "strptime s0 = Some today"
    and "strptime s1 = Some (today - 1)"
    and "strptime s2 = Some (today - 2)"
    and "strptime s3 = Some (today - 3)"
    and "date_min < today - 3"
  shows "calculate_streak strptime today [s0] = Inr 1 \<and>
         calculate_streak strptime today [s1] = Inr 1 \<and>
         calculate_streak strptime today [s2] = Inr 0 \<and>
         calculate_streak strptime today [] = Inr 0 \<and>
         calculate_streak strptime today [s0, s1, s2, s3] = Inr 4 \<and>
         calculate_streak strptime today [s0, s2] = Inr 1"
proof -
  from assms show ?thesis
    by (simp add: calculate_streak_def minus_one_day_def)
qed

theorem calculate_streak_examples_witness:
  "calculate_streak strptime_iso 738955 [''2024-03-10''] = Inr 1 \<and>
   calculate_streak strptime_iso 738955 [''2024-03-09''] = Inr 1 \<and>
   calculate_streak strptime_iso 738955 [''2024-03-08''] = Inr 0 \<and>
   calculate_streak strptime_iso 738955 [] = Inr 0 \<and>
   calculate_streak strptime_iso 738955 [''2024-03-10'', ''2024-03-09'', ''2024-03-08'', ''2024-03-07''] = Inr 4 \<and>
   calculate_streak strptime_iso 738955 [''2024-03-10'', ''2024-03-08''] = Inr 1"
  using calculate_streak_examples [of strptime_iso "''2024-03-10''" 738955 "''2024-03-09''" "''2024-03-08''" "''2024-03-07''"]
  by (simp add: iso_simps date_min_def)


text \<open>
  Claim C10. On valid date strings \<open>calculate_streak\<close> returns a natural number that
  is at most the number of distinct dates of the input, and it is positive exactly when
  the input is not empty and its most recent date is today or yesterday.
\<close>

theorem calculate_streak_bounds:
  assumes parse: "parse_dates strptime dates = Inr ds"
    and today: "date_min < today"
    and valid: "\<forall>d \<in> set ds. date_min < d"
  shows "\<exists>n. calculate_streak strptime today dates = Inr n \<and> n \<le> card (set ds) \<and>
             (0 < n \<longleftrightarrow> dates \<noteq> [] \<and> (Max (set ds) = today \<or> Max (set ds) = today - 1))"
proof (cases "dates = []")
  case True
  then show ?thesis by (simp add: calculate_streak_def)
next
  case ne: False
  from parse ne have ds: "ds \<noteq> []" by (rule parse_dates_nonempty)
  let ?xs = "rev (sort ds)"
  let ?m = "Max (set ds)"
  note eq = calculate_streak_eq [OF ne parse today]
  show ?thesis
  proof (cases "?m \<noteq> today \<and> ?m \<noteq> today - 1")
    case True
    with eq ne show ?thesis by auto
  next
    case False
    from valid have loop: "streak_loop ?xs ?m 0 = Inr (walk ?xs ?m)"
      by (simp add: streak_loop_walk)
    from streak_loop_sound [OF loop] have "\<forall>i < walk ?xs ?m. ?m - int i \<in> set ds" by simp
    then have le: "walk ?xs ?m \<le> card (set ds)" by (rule run_le_card) simp
    from ds have "?xs \<noteq> []" by (metis length_0_conv length_rev length_sort)
    then obtain x xs where xs: "?xs = x # xs" by (cases ?xs) auto
    with hd_rev_sort [OF ds] have "x = ?m" by simp
    with xs have pos: "0 < walk ?xs ?m" by simp
    from False eq loop le pos ne show ?thesis by auto
  qed
qed

theorem calculate_streak_bounds_witness:
  "calculate_streak strptime_iso 738955 [''2024-03-09'', ''2024-03-10'', ''2024-03-07''] = Inr 2 \<and>
   2 \<le> card (set [738954, 738955, 738952 :: int])"
proof -
  have p: "parse_dates strptime_iso [''2024-03-09'', ''2024-03-10'', ''2024-03-07'']
             = Inr [738954, 738955, 738952]"
    by (simp add: iso_simps)
  have c: "calculate_streak strptime_iso 738955 [''2024-03-09'', ''2024-03-10'', ''2024-03-07''] = Inr 2"
    by (simp add: calculate_streak_def iso_simps minus_one_day_def date_min_def)
  from calculate_streak_bounds [OF p, of 738955]
  show ?thesis by (simp add: c date_min_def)
qed

section \<open>Properties of the store, the handlers and the collaborator\<close>

subsection \<open>Auxiliary facts\<close>

lemma first_row_find:
  "(case filter P xs of [] \<Rightarrow> a | x # _ \<Rightarrow> f x) = (case find P xs of None \<Rightarrow> a | Some x \<Rightarrow> f x)"
  by (induction xs) auto

lemma whitespace_nonempty: "[] \<notin> set whitespace"
  by (simp add: whitespace_def)

lemma whitespace_tail_no_space: "p \<in> set whitespace \<Longrightarrow> CHR 0x20 \<notin> set (tl p)"
  by (auto simp: whitespace_def)

lemma find_prefix_None: "find (\<lambda>p. prefix p s) ps = None \<longleftrightarrow> \<not> (\<exists>p \<in> set ps. prefix p s)"
  by (auto simp: find_None_iff)

lemma find_prefix_Some: "find (\<lambda>p. prefix p s) ps = Some p \<Longrightarrow> p \<in> set ps \<and> prefix p s"
  by (auto simp: find_Some_iff)

lemma split_loop_words:
  assumes "word = [] \<or> \<not> (\<exists>p \<in> set whitespace. prefix p (word @ s))"
  shows "\<forall>w \<in> set (split_loop s word). w \<noteq> [] \<and> \<not> (\<exists>p \<in> set whitespace. prefix p w)"
  using assms
proof (induction s word rule: split_loop.induct)
  case (1 word)
  then show ?case by auto
next
  case (2 c cs word)
  show ?case
  proof (cases "find (\<lambda>p. prefix p (c # cs)) whitespace")
    case None
    then have no: "\<not> (\<exists>p \<in> set whitespace. prefix p (c # cs))" by (simp add: find_prefix_None)
    have "word @ [c] = [] \<or> \<not> (\<exists>p \<in> set whitespace. prefix p ((word @ [c]) @ cs))"
    proof (cases "word = []")
      case True
      with no show ?thesis by simp
    next
      case False
      with "2.prems" show ?thesis by simp
    qed
    from "2.IH"(1) [OF None this] None show ?thesis by simp
  next
    case (Some p)
    have rest: "\<forall>w \<in> set (split_loop (drop (length p - 1) cs) []). w \<noteq> [] \<and> \<not> (\<exists>p \<in> set whitespace. prefix p w)"
      using "2.IH"(2) [OF Some] by simp
    have cur: "word \<noteq> [] \<Longrightarrow> \<not> (\<exists>p \<in> set whitespace. prefix p word)"
      using "2.prems" by (auto intro: prefix_prefix)
    from rest cur Some show ?thesis by auto
  qed
qed

lemma str_split_words:
  "\<forall>w \<in> set (str_split s). w \<noteq> [] \<and> \<not> (\<exists>p \<in> set whitespace. prefix p w)"
  unfolding str_split_def by (rule split_loop_words) simp

lemma join_no_space_prefix:
  assumes w: "w \<noteq> []" "\<not> (\<exists>p \<in> set whitespace. prefix p w)"
  shows "join '' '' (w # ws) \<noteq> [] \<and> \<not> (\<exists>p \<in> set whitespace. prefix p (join '' '' (w # ws)))"
proof (cases ws)
  case Nil
  with w show ?thesis by simp
next
  case (Cons v vs)
  have "\<not> prefix p (w @ '' '' @ t)" if p: "p \<in> set whitespace" for p t
  proof
    assume "prefix p (w @ '' '' @ t)"
    then have "prefix p w \<or> (\<exists>us. p = w @ us \<and> prefix us ('' '' @ t))"
      by (simp add: prefix_append)
    then consider "prefix p w" | us where "p = w @ us" "prefix us ('' '' @ t)" "us \<noteq> []"
      by (metis append.right_neutral prefix_order.refl)
    then show False
    proof cases
      case 1
      with p w show False by blast
    next
      case 2
      then obtain us' where "us = CHR 0x20 # us'" by (cases us) auto
      with 2 w have "CHR 0x20 \<in> set (tl p)" by (cases w) auto
      with whitespace_tail_no_space [OF p] show False by simp
    qed
  qed
  with w Cons show ?thesis by auto
qed

lemma drop_leading_empty:
  assumes "drop_leading ps t = []" and "t \<noteq> []" and "[] \<notin> set ps"
  shows "\<exists>q \<in> set ps. suffix q t"
  using assms
proof (induction ps t rule: drop_leading.induct)
  case (1 ps)
  then show ?case by simp
next
  case (2 ps c cs)
  from "2.prems"(1) obtain p where f: "find (\<lambda>p. prefix p (c # cs)) ps = Some p"
    by (cases "find (\<lambda>p. prefix p (c # cs)) ps") auto
  then have p: "p \<in> set ps" "prefix p (c # cs)" by (auto dest: find_prefix_Some)
  with "2.prems"(3) have pne: "p \<noteq> []" by auto
  let ?r = "drop (length p - 1) cs"
  from pne have r: "?r = drop (length p) (c # cs)" by (cases p) auto
  from f "2.prems"(1) have d: "drop_leading ps ?r = []" by simp
  show ?case
  proof (cases "?r = []")
    case True
    with r p(2) have "c # cs = p" by (metis append.right_neutral append_take_drop_id prefixE append_eq_conv_conj)
    with p(1) show ?thesis by auto
  next
    case False
    from "2.IH" [OF f d False "2.prems"(3)] obtain q where q: "q \<in> set ps" "suffix q ?r" by auto
    have "suffix ?r (c # cs)" unfolding r by (rule suffix_drop)
    with q(2) have "suffix q (c # cs)" by (rule suffix_order.trans)
    with q(1) show ?thesis by auto
  qed
qed

lemma strip_nonempty:
  assumes "s \<noteq> []" and "\<not> (\<exists>p \<in> set whitespace. prefix p s)"
  shows "strip s \<noteq> []"
proof
  assume e: "strip s = []"
  from assms obtain c cs where s: "s = c # cs" by (cases s) auto
  from assms(2) have "find (\<lambda>p. prefix p (c # cs)) whitespace = None"
    unfolding s by (simp add: find_prefix_None)
  then have l: "drop_leading whitespace s = s" by (simp add: s)
  from e l have "drop_leading (map rev whitespace) (rev s) = []" by (simp add: strip_def)
  moreover from assms(1) have "rev s \<noteq> []" by simp
  moreover have "[] \<notin> set (map rev whitespace)" using whitespace_nonempty by auto
  ultimately obtain q where "q \<in> set (map rev whitespace)" "suffix q (rev s)"
    using drop_leading_empty by blast
  then obtain p where "p \<in> set whitespace" "suffix (rev p) (rev s)" by auto
  then have "prefix p s" by (simp add: suffix_to_prefix)
  with \<open>p \<in> set whitespace\<close> assms(2) show False by blast
qed

lemma command_name_nonempty:
  assumes "command_args text \<noteq> []"
  shows "strip (join '' '' (command_args text)) \<noteq> []"
proof -
  from assms obtain w ws where a: "command_args text = w # ws" by (cases "command_args text") auto
  then have "w \<in> set (tl (str_split text))" by (simp add: command_args_def)
  then have "w \<in> set (str_split text)" by (cases "str_split text") auto
  with str_split_words [of "text"]
  have w: "w \<noteq> []" "\<not> (\<exists>p \<in> set whitespace. prefix p w)" by auto
  have "join '' '' (w # ws) \<noteq> [] \<and> \<not> (\<exists>p \<in> set whitespace. prefix p (join '' '' (w # ws)))"
    using w by (rule join_no_space_prefix)
  then show ?thesis unfolding a by (simp add: strip_nonempty)
qed

lemma str_nat_value: "fold (\<lambda>c a. 10 * a + (of_char c - 48)) (str_nat n) 0 = n"
proof (induction n rule: str_nat.induct)
  case (1 n)
  show ?case
  proof (cases "n < 10")
    case True
    then have "str_nat n = [char_of (48 + n)]" by (simp del: str_nat.simps add: str_nat.simps [of n])
    moreover from True have "of_char (char_of (48 + n)) = 48 + n" by (simp add: of_char_of)
    ultimately show ?thesis by (simp del: str_nat.simps)
  next
    case False
    then have s: "str_nat n = str_nat (n div 10) @ [char_of (48 + n mod 10)]"
      by (simp del: str_nat.simps add: str_nat.simps [of n])
    have "of_char (char_of (48 + n mod 10)) = 48 + n mod 10" by (simp add: of_char_of)
    with "1.IH" [OF False] show ?thesis
      unfolding s by (simp del: str_nat.simps)
  qed
qed

lemma str_nat_inj: "str_nat m = str_nat n \<Longrightarrow> m = n"
  by (metis str_nat_value)

lemma calculate_streak_total:
  assumes valid: "\<forall>s \<in> set dates. \<exists>d. strptime s = Some d \<and> date_min < d"
    and today: "date_min < today"
  shows "\<exists>n. calculate_streak strptime today dates = Inr n"
proof (cases "dates = []")
  case True
  then show ?thesis by (simp add: calculate_streak_def)
next
  case False
  let ?ds = "map (\<lambda>s. the (strptime s)) dates"
  from valid have parse: "parse_dates strptime dates = Inr ?ds"
    by (auto simp: parse_dates_cases)
  from valid have "\<forall>d \<in> set (rev (sort ?ds)). date_min < d" by auto
  then have "streak_loop (rev (sort ?ds)) (Max (set ?ds)) 0 = Inr (0 + walk (rev (sort ?ds)) (Max (set ?ds)))"
    by (rule streak_loop_walk)
  then show ?thesis
    by (simp add: calculate_streak_eq [OF False parse today])
qed

lemma list_all2_exists:
  "\<forall>x \<in> set xs. \<exists>y. P x y \<Longrightarrow> \<exists>ys. list_all2 P xs ys"
proof (induction xs)
  case Nil
  then show ?case by simp
next
  case (Cons x xs)
  then obtain y ys where "P x y" "list_all2 P xs ys" by auto
  then have "list_all2 P (x # xs) (y # ys)" by simp
  then show ?case ..
qed

lemma stats_loop_result:
  assumes "list_all2 (\<lambda>h n. calculate_streak strptime today (get_habit_completions db (fst h)) = Inr n) hs streaks"
  shows "stats_loop strptime today db hs habit_data total_completions max_streak =
           Inr (habit_data @ map2 (\<lambda>h n. (fst (snd h), n, length (get_habit_completions db (fst h)))) hs streaks,
                total_completions + sum_list (map (\<lambda>h. length (get_habit_completions db (fst h))) hs),
                fold max streaks max_streak)"
  using assms
proof (induction hs streaks arbitrary: habit_data total_completions max_streak rule: list_all2_induct)
  case Nil
  then show ?case by simp
next
  case (Cons h hs n streaks)
  obtain hid name created where h: "h = (hid, name, created)" by (cases h) auto
  from Cons.hyps(1) h have "calculate_streak strptime today (get_habit_completions db hid) = Inr n" by simp
  then show ?case
    by (simp add: h Let_def Cons.IH max.commute)
qed

lemma fold_max_Max:
  fixes m :: nat
  shows "fold max xs m = Max (insert m (set xs))"
  using Max.set_eq_fold [of m xs] by simp

lemma sort_key_Nil_iff: "sort_key f xs = [] \<longleftrightarrow> xs = []"
  by (metis length_0_conv length_sort)

lemma next_id_fresh: "i \<in> set ids \<Longrightarrow> i < next_id seq ids"
  by (simp add: next_id_def fold_max_Max less_Suc_eq_le)

lemma str_int_8: "str_int 8 = ''8''" by code_simp

subsection \<open>The claims about the store\<close>

text \<open>
  Claim C3, evaluated on the code. User 7 adds the habit Exercise and completes it on
  2024-03-10; the habit has id 1. \<open>delete_habit_from_db\<close> then returns \<open>True\<close> and
  the habit is gone from \<open>get_user_habits\<close>, but the completion row is still in the
  table: \<open>get_habit_completions\<close> on the old id 1 returns the date, not the empty list.
  The cascade that the schema declares does not run, because no connection of the
  source switches foreign keys on.
\<close>

theorem delete_habit_leaves_completions:
  "(let (added, db1) = add_habit_to_db ''2024-03-09'' init_db 7 ''Exercise'';
        (completed, db2) = complete_habit_in_db db1 7 ''Exercise'' ''2024-03-10'';
        (deleted, db3) = delete_habit_from_db db2 7 ''Exercise''
    in added \<and> completed = (True, ''Completed'') \<and>
       get_user_habits db2 7 = [(1, ''Exercise'', ''2024-03-09'')] \<and>
       get_habit_completions db2 1 = [''2024-03-10''] \<and>
       deleted \<and>
       get_user_habits db3 7 = [] \<and>
       get_habit_completions db3 1 = [''2024-03-10''] \<and>
       completions db3 = completions db2)"
  by code_simp

text \<open>
  Claim C4. \<open>complete_habit_in_db\<close> (the operation \<open>record_completion\<close>) returns
  \<open>(False, "Habit not found")\<close> when the owner has no habit of that name, and
  \<open>(False, "Already completed")\<close> when the habit has a completion for that date; both
  leave the database as it was, so the completion count of the habit is unchanged.
  Otherwise it returns \<open>(True, "Completed")\<close> and appends exactly one completion row for
  the habit and the date: the habit has one completion more, and the date occurs once
  among its completions. Every outcome is a returned value.
\<close>

theorem complete_habit_in_db_outcomes:
  "(find (\<lambda>h. user_id h = uid \<and> habit_name h = name) (habits db) = None \<longrightarrow>
      complete_habit_in_db db uid name date = ((False, ''Habit not found''), db)) \<and>
   (\<forall>h. find (\<lambda>h. user_id h = uid \<and> habit_name h = name) (habits db) = Some h \<longrightarrow>
      (if date \<in> set (get_habit_completions db (row_id h))
       then complete_habit_in_db db uid name date = ((False, ''Already completed''), db)
       else (\<exists>db' new_id.
               complete_habit_in_db db uid name date = ((True, ''Completed''), db') \<and>
               habits db' = habits db \<and>
               completions db' = completions db @
                 [\<lparr>completion_id = new_id, habit_id = row_id h, completion_date = date\<rparr>] \<and>
               length (get_habit_completions db' (row_id h)) =
                 Suc (length (get_habit_completions db (row_id h))) \<and>
               count_list (get_habit_completions db' (row_id h)) date = 1)))"
proof (intro conjI impI allI)
  assume "find (\<lambda>h. user_id h = uid \<and> habit_name h = name) (habits db) = None"
  then show "complete_habit_in_db db uid name date = ((False, ''Habit not found''), db)"
    by (simp add: complete_habit_in_db_def first_row_find)
next
  fix h
  assume found: "find (\<lambda>h. user_id h = uid \<and> habit_name h = name) (habits db) = Some h"
  have mem: "date \<in> set (get_habit_completions db (row_id h)) \<longleftrightarrow>
             (\<exists>c \<in> set (completions db). habit_id c = row_id h \<and> completion_date c = date)"
    by (auto simp: get_habit_completions_def)
  show "if date \<in> set (get_habit_completions db (row_id h))
       then complete_habit_in_db db uid name date = ((False, ''Already completed''), db)
       else (\<exists>db' new_id.
               complete_habit_in_db db uid name date = ((True, ''Completed''), db') \<and>
               habits db' = habits db \<and>
               completions db' = completions db @
                 [\<lparr>completion_id = new_id, habit_id = row_id h, completion_date = date\<rparr>] \<and>
               length (get_habit_completions db' (row_id h)) =
                 Suc (length (get_habit_completions db (row_id h))) \<and>
               count_list (get_habit_completions db' (row_id h)) date = 1)"
  proof (cases "date \<in> set (get_habit_completions db (row_id h))")
    case True
    with found mem show ?thesis
      by (simp add: complete_habit_in_db_def first_row_find)
  next
    case False
    have cnt: "count_list (rev (sort (xs @ [date]))) date = 1" if "date \<notin> set xs" for xs :: "string list"
    proof -
      have "count_list ys date = count (mset ys) date" for ys :: "string list"
        by (induction ys) auto
      then have "count_list (rev (sort (xs @ [date]))) date = count (mset xs) date + 1" by simp
      with that show ?thesis by (simp add: count_eq_zero_iff)
    qed
    from False have "date \<notin> set (map completion_date (filter (\<lambda>c. habit_id c = row_id h) (completions db)))"
      by (simp add: get_habit_completions_def)
    from cnt [OF this] False found mem show ?thesis
      by (simp add: complete_habit_in_db_def first_row_find Let_def get_habit_completions_def)
  qed
qed

theorem complete_habit_in_db_outcomes_witness:
  "complete_habit_in_db init_db 7 ''Exercise'' ''2024-03-10'' = ((False, ''Habit not found''), init_db) \<and>
   complete_habit_in_db
       \<lparr>habits = [\<lparr>row_id = 1, user_id = 7, habit_name = ''Exercise'', created_date = ''2024-03-09''\<rparr>],
        completions = [\<lparr>completion_id = 1, habit_id = 1, completion_date = ''2024-03-10''\<rparr>],
        habits_seq = 1, completions_seq = 1\<rparr> 7 ''Exercise'' ''2024-03-10'' =
     ((False, ''Already completed''),
      \<lparr>habits = [\<lparr>row_id = 1, user_id = 7, habit_name = ''Exercise'', created_date = ''2024-03-09''\<rparr>],
       completions = [\<lparr>completion_id = 1, habit_id = 1, completion_date = ''2024-03-10''\<rparr>],
       habits_seq = 1, completions_seq = 1\<rparr>) \<and>
   (\<exists>db'. complete_habit_in_db
       \<lparr>habits = [\<lparr>row_id = 1, user_id = 7, habit_name = ''Exercise'', created_date = ''2024-03-09''\<rparr>],
        completions = [], habits_seq = 1, completions_seq = 0\<rparr> 7 ''Exercise'' ''2024-03-10'' =
       ((True, ''Completed''), db') \<and>
     length (get_habit_completions db' 1) = 1 \<and>
     count_list (get_habit_completions db' 1) ''2024-03-10'' = 1)"
proof -
  let ?h = "\<lparr>row_id = 1, user_id = 7, habit_name = ''Exercise'', created_date = ''2024-03-09''\<rparr>"
  let ?db1 = "\<lparr>habits = [?h], completions = [], habits_seq = 1, completions_seq = 0\<rparr>"
  let ?db2 = "\<lparr>habits = [?h],
               completions = [\<lparr>completion_id = 1, habit_id = 1, completion_date = ''2024-03-10''\<rparr>],
               habits_seq = 1, completions_seq = 1\<rparr>"
  have none: "find (\<lambda>h. user_id h = 7 \<and> habit_name h = ''Exercise'') (habits init_db) = None"
    by (simp add: init_db_def)
  have f1: "find (\<lambda>h. user_id h = 7 \<and> habit_name h = ''Exercise'') (habits ?db1) = Some ?h"
    by simp
  have f2: "find (\<lambda>h. user_id h = 7 \<and> habit_name h = ''Exercise'') (habits ?db2) = Some ?h"
    by simp
  have g1: "get_habit_completions ?db1 (row_id ?h) = []"
    by (simp add: get_habit_completions_def)
  have g2: "get_habit_completions ?db2 (row_id ?h) = [''2024-03-10'']"
    by (simp add: get_habit_completions_def)
  note a = complete_habit_in_db_outcomes [THEN conjunct1, THEN mp, OF none]
  note b0 = complete_habit_in_db_outcomes [THEN conjunct2, THEN spec, THEN mp, OF f2, of "''2024-03-10''"]
  have b: "complete_habit_in_db ?db2 7 ''Exercise'' ''2024-03-10'' = ((False, ''Already completed''), ?db2)"
    using b0 unfolding g2 by simp
  note c0 = complete_habit_in_db_outcomes [THEN conjunct2, THEN spec, THEN mp, OF f1, of "''2024-03-10''"]
  have c: "\<exists>db'. complete_habit_in_db ?db1 7 ''Exercise'' ''2024-03-10'' = ((True, ''Completed''), db') \<and>
     length (get_habit_completions db' 1) = 1 \<and>
     count_list (get_habit_completions db' 1) ''2024-03-10'' = 1"
    using c0 unfolding g1 by auto
  from a b c show ?thesis by (intro conjI)
qed

text \<open>
  Claim C5. \<open>add_habit_to_db\<close> returns \<open>True\<close> and appends one habit row with the
  owner, the name and the current date as creation date when the owner has no habit of
  that name (the id of the row is new); when the owner has one it returns \<open>False\<close> and leaves the database as it
  was. Calling it twice with the same owner and name, the second call returns \<open>False\<close>
  and changes nothing; if the owner had no habit before, the first call succeeds and
  the owner has one habit after both.
\<close>

theorem add_habit_to_db_outcomes:
  "(\<not> (\<exists>h \<in> set (habits db). user_id h = uid \<and> habit_name h = name) \<longrightarrow>
      (\<exists>db' new_id.
         add_habit_to_db now db uid name = (True, db') \<and>
         habits db' = habits db @ [\<lparr>row_id = new_id, user_id = uid, habit_name = name, created_date = now\<rparr>] \<and>
         completions db' = completions db \<and>
         new_id \<notin> set (map row_id (habits db)) \<and>
         mset (get_user_habits db' uid) = add_mset (new_id, name, now) (mset (get_user_habits db uid)))) \<and>
   ((\<exists>h \<in> set (habits db). user_id h = uid \<and> habit_name h = name) \<longrightarrow>
      add_habit_to_db now db uid name = (False, db)) \<and>
   (let (r1, db1) = add_habit_to_db now db uid name;
        (r2, db2) = add_habit_to_db now' db1 uid name
    in \<not> r2 \<and> db2 = db1 \<and>
       (get_user_habits db uid = [] \<longrightarrow> r1 \<and> length (get_user_habits db2 uid) = 1))"
proof (intro conjI impI)
  assume new: "\<not> (\<exists>h \<in> set (habits db). user_id h = uid \<and> habit_name h = name)"
  then show "\<exists>db' new_id.
         add_habit_to_db now db uid name = (True, db') \<and>
         habits db' = habits db @ [\<lparr>row_id = new_id, user_id = uid, habit_name = name, created_date = now\<rparr>] \<and>
         completions db' = completions db \<and>
         new_id \<notin> set (map row_id (habits db)) \<and>
         mset (get_user_habits db' uid) = add_mset (new_id, name, now) (mset (get_user_habits db uid))"
    using next_id_fresh [of _ "map row_id (habits db)" "habits_seq db"]
    by (auto simp: add_habit_to_db_def get_user_habits_def Let_def)
next
  assume "\<exists>h \<in> set (habits db). user_id h = uid \<and> habit_name h = name"
  then show "add_habit_to_db now db uid name = (False, db)"
    by (simp add: add_habit_to_db_def)
next
  show "let (r1, db1) = add_habit_to_db now db uid name;
        (r2, db2) = add_habit_to_db now' db1 uid name
    in \<not> r2 \<and> db2 = db1 \<and>
       (get_user_habits db uid = [] \<longrightarrow> r1 \<and> length (get_user_habits db2 uid) = 1)"
  proof (cases "\<exists>h \<in> set (habits db). user_id h = uid \<and> habit_name h = name")
    case True
    then have "get_user_habits db uid \<noteq> []"
      by (auto simp: get_user_habits_def sort_key_Nil_iff filter_empty_conv)
    with True show ?thesis by (simp add: add_habit_to_db_def)
  next
    case False
    then show ?thesis
      by (auto simp: add_habit_to_db_def get_user_habits_def sort_key_Nil_iff Let_def)
  qed
qed

theorem add_habit_to_db_outcomes_witness:
  "add_habit_to_db ''2024-03-10'' init_db 7 ''Exercise'' =
     (True, \<lparr>habits = [\<lparr>row_id = 1, user_id = 7, habit_name = ''Exercise'', created_date = ''2024-03-10''\<rparr>],
             completions = [], habits_seq = 1, completions_seq = 0\<rparr>) \<and>
   add_habit_to_db ''2024-03-11''
       \<lparr>habits = [\<lparr>row_id = 1, user_id = 7, habit_name = ''Exercise'', created_date = ''2024-03-10''\<rparr>],
        completions = [], habits_seq = 1, completions_seq = 0\<rparr> 7 ''Exercise'' =
     (False, \<lparr>habits = [\<lparr>row_id = 1, user_id = 7, habit_name = ''Exercise'', created_date = ''2024-03-10''\<rparr>],
              completions = [], habits_seq = 1, completions_seq = 0\<rparr>) \<and>
   (let (r1, db1) = add_habit_to_db ''2024-03-10'' init_db 7 ''Exercise'';
        (r2, db2) = add_habit_to_db ''2024-03-11'' db1 7 ''Exercise''
    in r1 \<and> \<not> r2 \<and> db2 = db1 \<and> length (get_user_habits db2 7) = 1)"
proof -
  have new: "\<not> (\<exists>h \<in> set (habits init_db). user_id h = 7 \<and> habit_name h = ''Exercise'')"
    by (simp add: init_db_def)
  have none: "get_user_habits init_db 7 = []"
    by (simp add: get_user_habits_def init_db_def)
  have first: "add_habit_to_db ''2024-03-10'' init_db 7 ''Exercise'' =
     (True, \<lparr>habits = [\<lparr>row_id = 1, user_id = 7, habit_name = ''Exercise'', created_date = ''2024-03-10''\<rparr>],
             completions = [], habits_seq = 1, completions_seq = 0\<rparr>)"
    by (simp add: add_habit_to_db_def init_db_def next_id_def)
  have old: "\<exists>h \<in> set (habits \<lparr>habits = [\<lparr>row_id = 1, user_id = 7, habit_name = ''Exercise'', created_date = ''2024-03-10''\<rparr>],
             completions = [], habits_seq = 1, completions_seq = 0\<rparr>). user_id h = 7 \<and> habit_name h = ''Exercise''"
    by simp
  from add_habit_to_db_outcomes [of init_db 7 "''Exercise''" "''2024-03-10''" "''2024-03-11''"] new none
  have twice: "let (r1, db1) = add_habit_to_db ''2024-03-10'' init_db 7 ''Exercise'';
        (r2, db2) = add_habit_to_db ''2024-03-11'' db1 7 ''Exercise''
    in r1 \<and> \<not> r2 \<and> db2 = db1 \<and> length (get_user_habits db2 7) = 1"
    by (auto simp: Let_def split: prod.splits)
  from add_habit_to_db_outcomes [of "\<lparr>habits = [\<lparr>row_id = 1, user_id = 7, habit_name = ''Exercise'', created_date = ''2024-03-10''\<rparr>],
             completions = [], habits_seq = 1, completions_seq = 0\<rparr>" 7 "''Exercise''" "''2024-03-11''" "''2024-03-11''"] old
  have second: "add_habit_to_db ''2024-03-11''
       \<lparr>habits = [\<lparr>row_id = 1, user_id = 7, habit_name = ''Exercise'', created_date = ''2024-03-10''\<rparr>],
        completions = [], habits_seq = 1, completions_seq = 0\<rparr> 7 ''Exercise'' =
     (False, \<lparr>habits = [\<lparr>row_id = 1, user_id = 7, habit_name = ''Exercise'', created_date = ''2024-03-10''\<rparr>],
              completions = [], habits_seq = 1, completions_seq = 0\<rparr>)"
    by blast
  from first second twice show ?thesis by blast
qed

text \<open>
  Claim C7, as the code has it. The stored completion dates of the user are valid dates
  and, like the clock, later than \<open>date.min\<close>. For a user without habits \<open>stats\<close>
  replies that there are no habits yet, and reports no statistics. For a user with at
  least one habit every streak is computed by \<open>calculate_streak\<close> from the completions
  read from the database in this query, and the reply reports, in decimal, the number
  of habits, the sum over the habits of the number of completions, and the maximum of
  the streaks, followed by one entry for each habit.
\<close>

theorem stats_totals:
  assumes habits: "get_user_habits db uid = user_habits"
    and valid: "\<forall>h \<in> set user_habits. \<forall>s \<in> set (get_habit_completions db (fst h)).
                  \<exists>d. strptime s = Some d \<and> date_min < d"
    and today: "date_min < today"
  shows "(user_habits = [] \<longrightarrow>
           stats strptime today db uid =
             Inr (''You don'' @ apostrophe @ ''t have any habits yet.'' @ newline @
                  ''Use /addhabit to create one!'')) \<and>
         (user_habits \<noteq> [] \<longrightarrow>
           (\<exists>streaks.
              list_all2 (\<lambda>h n. calculate_streak strptime today (get_habit_completions db (fst h)) = Inr n)
                user_habits streaks \<and>
              stats strptime today db uid =
                Inr (
                    chart_increasing @ '' *Your Statistics:*'' @ newline @ newline @
                    bar_chart @ '' Total Habits: '' @ str_nat (length user_habits) @
                    newline @ check_mark @ '' Total Completions: '' @
                    str_nat (sum_list (map (\<lambda>h. length (get_habit_completions db (fst h))) user_habits)) @
                    newline @ fire @ '' Best Streak: '' @ str_nat (Max (set streaks)) @
                    '' days'' @ newline @ newline @ ''*Habit Details:*'' @ newline @ newline @
                    concat (map (\<lambda>(name, streak, total).
                              bullet @ '' *'' @ name @ ''*'' @ newline @ ''  Streak: '' @
                              str_nat streak @ '' '' @ fire @ '' | Total: '' @
                              str_nat total @ '' '' @ check_mark @ newline @ newline)
                      (sort_key (\<lambda>(name, streak, total). - int streak)
                         (map2 (\<lambda>h n. (fst (snd h), n, length (get_habit_completions db (fst h))))
                          user_habits streaks))))))"
proof (intro conjI impI)
  assume "user_habits = []"
  with habits show "stats strptime today db uid =
             Inr (''You don'' @ apostrophe @ ''t have any habits yet.'' @ newline @
                  ''Use /addhabit to create one!'')"
    by (simp add: stats_def)
next
  assume ne: "user_habits \<noteq> []"
  from valid today have "\<forall>h \<in> set user_habits.
      \<exists>n. calculate_streak strptime today (get_habit_completions db (fst h)) = Inr n"
    by (blast intro: calculate_streak_total)
  then obtain streaks where all:
    "list_all2 (\<lambda>h n. calculate_streak strptime today (get_habit_completions db (fst h)) = Inr n)
       user_habits streaks"
    using list_all2_exists [of user_habits
        "\<lambda>h n. calculate_streak strptime today (get_habit_completions db (fst h)) = Inr n"]
    by blast
  from all ne have "streaks \<noteq> []" by (auto simp: list_all2_Nil2)
  then have mx: "fold max streaks 0 = Max (set streaks)"
    by (simp add: fold_max_Max Max_insert max_def)
  from ne habits have "stats strptime today db uid =
                Inr (
                    chart_increasing @ '' *Your Statistics:*'' @ newline @ newline @
                    bar_chart @ '' Total Habits: '' @ str_nat (length user_habits) @
                    newline @ check_mark @ '' Total Completions: '' @
                    str_nat (sum_list (map (\<lambda>h. length (get_habit_completions db (fst h))) user_habits)) @
                    newline @ fire @ '' Best Streak: '' @ str_nat (Max (set streaks)) @
                    '' days'' @ newline @ newline @ ''*Habit Details:*'' @ newline @ newline @
                    concat (map (\<lambda>(name, streak, total).
                              bullet @ '' *'' @ name @ ''*'' @ newline @ ''  Streak: '' @
                              str_nat streak @ '' '' @ fire @ '' | Total: '' @
                              str_nat total @ '' '' @ check_mark @ newline @ newline)
                      (sort_key (\<lambda>(name, streak, total). - int streak)
                         (map2 (\<lambda>h n. (fst (snd h), n, length (get_habit_completions db (fst h))))
                          user_habits streaks))))"
    by (simp add: stats_def stats_loop_result [OF all] mx)
  with all show "\<exists>streaks.
              list_all2 (\<lambda>h n. calculate_streak strptime today (get_habit_completions db (fst h)) = Inr n)
                user_habits streaks \<and>
              stats strptime today db uid =
                Inr (
                    chart_increasing @ '' *Your Statistics:*'' @ newline @ newline @
                    bar_chart @ '' Total Habits: '' @ str_nat (length user_habits) @
                    newline @ check_mark @ '' Total Completions: '' @
                    str_nat (sum_list (map (\<lambda>h. length (get_habit_completions db (fst h))) user_habits)) @
                    newline @ fire @ '' Best Streak: '' @ str_nat (Max (set streaks)) @
                    '' days'' @ newline @ newline @ ''*Habit Details:*'' @ newline @ newline @
                    concat (map (\<lambda>(name, streak, total).
                              bullet @ '' *'' @ name @ ''*'' @ newline @ ''  Streak: '' @
                              str_nat streak @ '' '' @ fire @ '' | Total: '' @
                              str_nat total @ '' '' @ check_mark @ newline @ newline)
                      (sort_key (\<lambda>(name, streak, total). - int streak)
                         (map2 (\<lambda>h n. (fst (snd h), n, length (get_habit_completions db (fst h))))
                          user_habits streaks))))"
    by blast
qed

theorem stats_totals_witness:
  "(let db = snd (complete_habit_in_db
               (snd (complete_habit_in_db
                  (snd (complete_habit_in_db
                     (snd (add_habit_to_db ''2024-03-08''
                        (snd (add_habit_to_db ''2024-03-08'' init_db 7 ''Read'')) 7 ''Exercise''))
                     7 ''Read'' ''2024-03-08''))
                  7 ''Exercise'' ''2024-03-09''))
               7 ''Exercise'' ''2024-03-10'')
    in get_user_habits db 7 = [(2, ''Exercise'', ''2024-03-08''), (1, ''Read'', ''2024-03-08'')] \<and>
       stats strptime_iso 738955 db 7 =
         Inr (
             chart_increasing @ '' *Your Statistics:*'' @ newline @ newline @ bar_chart @
             '' Total Habits: 2'' @ newline @ check_mark @ '' Total Completions: 3'' @
             newline @ fire @ '' Best Streak: 2 days'' @ newline @ newline @
             ''*Habit Details:*'' @ newline @ newline @ bullet @ '' *Exercise*'' @
             newline @ ''  Streak: 2 '' @ fire @ '' | Total: 2 '' @ check_mark @ newline @
             newline @ bullet @ '' *Read*'' @ newline @ ''  Streak: 0 '' @ fire @
             '' | Total: 1 '' @ check_mark @ newline @ newline) \<and>
       get_user_habits db 8 = [] \<and>
       stats strptime_iso 738955 db 8 =
         Inr (''You don'' @ apostrophe @ ''t have any habits yet.'' @ newline @
              ''Use /addhabit to create one!''))"
proof -
  define db where "db = snd (complete_habit_in_db
               (snd (complete_habit_in_db
                  (snd (complete_habit_in_db
                     (snd (add_habit_to_db ''2024-03-08''
                        (snd (add_habit_to_db ''2024-03-08'' init_db 7 ''Read'')) 7 ''Exercise''))
                     7 ''Read'' ''2024-03-08''))
                  7 ''Exercise'' ''2024-03-09''))
               7 ''Exercise'' ''2024-03-10'')"
  have habits: "get_user_habits db 7 = [(2, ''Exercise'', ''2024-03-08''), (1, ''Read'', ''2024-03-08'')]"
    unfolding db_def by code_simp
  have none: "get_user_habits db 8 = []"
    unfolding db_def by code_simp
  have c1: "get_habit_completions db 2 = [''2024-03-10'', ''2024-03-09'']"
    unfolding db_def by code_simp
  have c2: "get_habit_completions db 1 = [''2024-03-08'']"
    unfolding db_def by code_simp
  note c2s = c2 [unfolded One_nat_def]
  have s1: "calculate_streak strptime_iso 738955 [''2024-03-10'', ''2024-03-09''] = Inr 2"
    by (simp add: calculate_streak_def iso_simps minus_one_day_def date_min_def)
  have s2: "calculate_streak strptime_iso 738955 [''2024-03-08''] = Inr 0"
    by (simp add: calculate_streak_def iso_simps minus_one_day_def date_min_def)
  have valid: "\<forall>h \<in> set [(2, ''Exercise'', ''2024-03-08''), (1, ''Read'', ''2024-03-08'')].
                 \<forall>s \<in> set (get_habit_completions db (fst h)).
                   \<exists>d. strptime_iso s = Some d \<and> date_min < d"
    by (simp add: c1 c2s iso_simps date_min_def)
  have valid8: "\<forall>h \<in> set ([] :: (nat \<times> string \<times> string) list).
                 \<forall>s \<in> set (get_habit_completions db (fst h)).
                   \<exists>d. strptime_iso s = Some d \<and> date_min < d"
    by simp
  have today: "date_min < 738955" by (simp add: date_min_def)
  have len: "length [(2::nat, ''Exercise'', ''2024-03-08''), (1, ''Read'', ''2024-03-08'')] = 2" by simp
  have tot: "sum_list (map (\<lambda>h. length (get_habit_completions db (fst h))) [(2::nat, ''Exercise'', ''2024-03-08''), (1, ''Read'', ''2024-03-08'')]) = 3"
    by (simp add: c1 c2s)
  have mx: "Max (set [2, 0 :: nat]) = 2" by simp
  have hd: "map2 (\<lambda>h n. (fst (snd h), n, length (get_habit_completions db (fst h))))
              [(2::nat, ''Exercise'', ''2024-03-08''), (1, ''Read'', ''2024-03-08'')] [2, 0] =
            [(''Exercise'', 2, 2), (''Read'', 0, 1)]"
    by (simp add: c1 c2s)
  have lit: "chart_increasing @ '' *Your Statistics:*'' @ newline @ newline @ bar_chart @
             '' Total Habits: '' @ str_nat 2 @ newline @ check_mark @
             '' Total Completions: '' @ str_nat 3 @ newline @ fire @ '' Best Streak: '' @
             str_nat 2 @ '' days'' @ newline @ newline @ ''*Habit Details:*'' @ newline @
             newline @
             concat (map (\<lambda>(name, streak, total).
                       bullet @ '' *'' @ name @ ''*'' @ newline @ ''  Streak: '' @
                       str_nat streak @ '' '' @ fire @ '' | Total: '' @ str_nat total @
                       '' '' @ check_mark @ newline @ newline)
               (sort_key (\<lambda>(name, streak, total). - int streak)
                  ([(''Exercise'', 2, 2), (''Read'', 0, 1)]))) =
             chart_increasing @ '' *Your Statistics:*'' @ newline @ newline @ bar_chart @
             '' Total Habits: 2'' @ newline @ check_mark @ '' Total Completions: 3'' @
             newline @ fire @ '' Best Streak: 2 days'' @ newline @ newline @
             ''*Habit Details:*'' @ newline @ newline @ bullet @ '' *Exercise*'' @
             newline @ ''  Streak: 2 '' @ fire @ '' | Total: 2 '' @ check_mark @ newline @
             newline @ bullet @ '' *Read*'' @ newline @ ''  Streak: 0 '' @ fire @
             '' | Total: 1 '' @ check_mark @ newline @ newline"
    by code_simp
  from stats_totals [OF habits valid today, THEN conjunct2, THEN mp]
  obtain streaks where
    all: "list_all2 (\<lambda>h n. calculate_streak strptime_iso 738955 (get_habit_completions db (fst h)) = Inr n)
            [(2, ''Exercise'', ''2024-03-08''), (1, ''Read'', ''2024-03-08'')] streaks"
    and st: "stats strptime_iso 738955 db 7 =
                Inr (
                    chart_increasing @ '' *Your Statistics:*'' @ newline @ newline @
                    bar_chart @ '' Total Habits: '' @ str_nat (length [(2::nat, ''Exercise'', ''2024-03-08''), (1, ''Read'', ''2024-03-08'')]) @
                    newline @ check_mark @ '' Total Completions: '' @
                    str_nat (sum_list (map (\<lambda>h. length (get_habit_completions db (fst h))) [(2::nat, ''Exercise'', ''2024-03-08''), (1, ''Read'', ''2024-03-08'')])) @
                    newline @ fire @ '' Best Streak: '' @ str_nat (Max (set streaks)) @
                    '' days'' @ newline @ newline @ ''*Habit Details:*'' @ newline @ newline @
                    concat (map (\<lambda>(name, streak, total).
                              bullet @ '' *'' @ name @ ''*'' @ newline @ ''  Streak: '' @
                              str_nat streak @ '' '' @ fire @ '' | Total: '' @
                              str_nat total @ '' '' @ check_mark @ newline @ newline)
                      (sort_key (\<lambda>(name, streak, total). - int streak)
                         (map2 (\<lambda>h n. (fst (snd h), n, length (get_habit_completions db (fst h)))) [(2::nat, ''Exercise'', ''2024-03-08''), (1, ''Read'', ''2024-03-08'')] streaks))))"
    by auto
  from all have streaks: "streaks = [2, 0]"
    by (auto simp: list_all2_Cons1 c1 c2s s1 s2)
  from st have seven: "stats strptime_iso 738955 db 7 =
         Inr (
             chart_increasing @ '' *Your Statistics:*'' @ newline @ newline @ bar_chart @
             '' Total Habits: 2'' @ newline @ check_mark @ '' Total Completions: 3'' @
             newline @ fire @ '' Best Streak: 2 days'' @ newline @ newline @
             ''*Habit Details:*'' @ newline @ newline @ bullet @ '' *Exercise*'' @
             newline @ ''  Streak: 2 '' @ fire @ '' | Total: 2 '' @ check_mark @ newline @
             newline @ bullet @ '' *Read*'' @ newline @ ''  Streak: 0 '' @ fire @
             '' | Total: 1 '' @ check_mark @ newline @ newline)"
    unfolding streaks len tot mx hd lit .
  from stats_totals [OF none valid8 today, THEN conjunct1, THEN mp]
  have eight: "stats strptime_iso 738955 db 8 =
         Inr (''You don'' @ apostrophe @ ''t have any habits yet.'' @ newline @
              ''Use /addhabit to create one!'')"
    by simp
  from habits seven none eight show ?thesis
    unfolding Let_def db_def [symmetric] by (intro conjI)
qed

text \<open>
  Claim C7 as stated fails for a user without habits: the reply is the message of the
  guard and not the statistics with the counts 0, 0 and 0.
\<close>

theorem stats_no_habits_counterexample:
  "stats strptime_iso 738955 init_db 7 =
     Inr (''You don'' @ apostrophe @ ''t have any habits yet.'' @ newline @
          ''Use /addhabit to create one!'') \<and>
   stats strptime_iso 738955 init_db 7 \<noteq>
     Inr (
          chart_increasing @ '' *Your Statistics:*'' @ newline @ newline @ bar_chart @
          '' Total Habits: '' @ str_nat 0 @ newline @ check_mark @
          '' Total Completions: '' @ str_nat 0 @ newline @ fire @ '' Best Streak: '' @
          str_nat 0 @ '' days'' @ newline @ newline @ ''*Habit Details:*'' @ newline @
          newline)"
  by code_simp

text \<open>
  Claim C8. When the request of \<open>generate_motivation\<close> fails, the result is the canned
  message of the bucket of the streak (at least 7, at least 3, otherwise), whatever the
  habit name and the number of completions are, and the service has received exactly
  that one request. When the request of \<open>ai_chat_assistant\<close> fails (the summary of the
  habits having been computed), the result is the fixed apology, again after exactly one
  request. Both are returned values.
\<close>

theorem generation_failure_fallback:
  "(generate_content svc (motivation_prompt name streak total_completions) = (None, svc') \<longrightarrow>
      generate_motivation generate_content svc name streak total_completions =
        (if streak \<ge> 7 then
           ''Incredible! '' @ str_int streak @ '' days strong! You'' @ apostrophe @
           ''re building a real habit here! '' @ fire
         else if streak \<ge> 3 then
           ''Amazing work! '' @ str_int streak @
           '' days in a row! Keep this momentum going! '' @ flexed_biceps
         else
           ''Great job! Every completion counts towards your success! '' @ party_popper,
         svc')) \<and>
   ((if user_habits_data \<noteq> []
     then map_sum id (join newline) (habits_summary_lines strptime today db user_habits_data)
     else Inr ''No habits yet'') = Inr habits_summary \<and>
    generate_content svc (chat_prompt habits_summary user_message) = (None, svc') \<longrightarrow>
      ai_chat_assistant generate_content svc strptime today db user_message user_habits_data =
        (Inr (''I'' @ apostrophe @
              ''m having trouble getting a response right now. Try a simpler question or try again in a moment!''),
         svc'))"
  by (simp add: generate_motivation_def ai_chat_assistant_def)

theorem generation_failure_fallback_witness:
  "generate_motivation (\<lambda>n prompt. (if n = (0::nat) then None else Some ''Well done!'', Suc n)) 0 ''Exercise'' 8 20 =
     (''Incredible! 8 days strong! You'' @ apostrophe @ ''re building a real habit here! '' @ fire, 1) \<and>
   ai_chat_assistant (\<lambda>n prompt. (if n = (0::nat) then None else Some ''Well done!'', Suc n)) 0
       strptime_iso 738955 init_db ''How do I stay consistent?'' [] =
     (Inr (''I'' @ apostrophe @
           ''m having trouble getting a response right now. Try a simpler question or try again in a moment!''), 1)"
  using generation_failure_fallback [where generate_content = "\<lambda>n prompt. (if n = (0::nat) then None else Some ''Well done!'', Suc n)"
      and svc = 0 and svc' = 1 and name = "''Exercise''" and streak = 8 and total_completions = 20
      and user_habits_data = "[]" and strptime = strptime_iso and today = 738955 and db = init_db
      and habits_summary = "''No habits yet''" and user_message = "''How do I stay consistent?''"]
  by (simp add: str_int_8)

text \<open>
  Claim C9. For every text of an add-habit command, every database and every owner:
  when the habit name that the handler makes from the words after the command is empty,
  \<open>add_habit\<close> replies with the guidance message and leaves the database as it was,
  so no habit row is inserted and the number of habits of the owner is unchanged.
  Moreover the handler never inserts a row with an empty name: every row of the table
  after the command was there before or has a name that is not empty.
\<close>

theorem add_habit_empty_name_rejected:
  "(strip (join '' '' (command_args text)) = [] \<longrightarrow>
      add_habit now db uid (command_args text) =
        (memo @ '' Please specify a habit name.'' @ newline @ ''Example: `/addhabit Drink water`'', db) \<and>
      habits (snd (add_habit now db uid (command_args text))) = habits db \<and>
      length (get_user_habits (snd (add_habit now db uid (command_args text))) uid) =
        length (get_user_habits db uid)) \<and>
   (\<forall>h \<in> set (habits (snd (add_habit now db uid (command_args text)))).
      h \<in> set (habits db) \<or> habit_name h \<noteq> [])"
proof (intro conjI impI)
  assume "strip (join '' '' (command_args text)) = []"
  with command_name_nonempty [of "text"] have "command_args text = []" by blast
  then show "add_habit now db uid (command_args text) =
        (memo @ '' Please specify a habit name.'' @ newline @ ''Example: `/addhabit Drink water`'', db)"
    and "habits (snd (add_habit now db uid (command_args text))) = habits db"
    and "length (get_user_habits (snd (add_habit now db uid (command_args text))) uid) =
        length (get_user_habits db uid)"
    by (simp_all add: add_habit_def)
next
  show "\<forall>h \<in> set (habits (snd (add_habit now db uid (command_args text)))).
      h \<in> set (habits db) \<or> habit_name h \<noteq> []"
  proof (cases "command_args text = []")
    case True
    then show ?thesis by (simp add: add_habit_def)
  next
    case False
    then have "strip (join '' '' (command_args text)) \<noteq> []" by (rule command_name_nonempty)
    with False show ?thesis
      by (auto simp: add_habit_def add_habit_to_db_def Let_def split: prod.splits if_splits)
  qed
qed

theorem add_habit_empty_name_rejected_witness:
  "command_args (''/addhabit'' @ [CHR 0x20, CHR 0xC2, CHR 0xA0, CHR 0x0A]) = [] \<and>
   add_habit ''2024-03-10'' init_db 7 (command_args (''/addhabit'' @ [CHR 0x20, CHR 0xC2, CHR 0xA0, CHR 0x0A])) =
     (memo @ '' Please specify a habit name.'' @ newline @ ''Example: `/addhabit Drink water`'', init_db) \<and>
   get_user_habits (snd (add_habit ''2024-03-10'' init_db 7
       (command_args (''/addhabit'' @ [CHR 0x20, CHR 0xC2, CHR 0xA0, CHR 0x0A])))) 7 = [] \<and>
   command_args ''/addhabit  Drink water '' = [''Drink'', ''water''] \<and>
   map habit_name (habits (snd (add_habit ''2024-03-10'' init_db 7 (command_args ''/addhabit  Drink water '')))) =
     [''Drink water'']"
proof -
  have a: "command_args (''/addhabit'' @ [CHR 0x20, CHR 0xC2, CHR 0xA0, CHR 0x0A]) = []"
    by code_simp
  have n: "strip (join '' '' []) = []" by code_simp
  have b: "command_args ''/addhabit  Drink water '' = [''Drink'', ''water'']" by code_simp
  have c: "map habit_name (habits (snd (add_habit ''2024-03-10'' init_db 7 [''Drink'', ''water'']))) =
     [''Drink water'']" by code_simp
  have g: "get_user_habits init_db 7 = []" by code_simp
  note t = add_habit_empty_name_rejected [of "''/addhabit'' @ [CHR 0x20, CHR 0xC2, CHR 0xA0, CHR 0x0A]"
      "''2024-03-10''" init_db 7, THEN conjunct1, THEN mp, unfolded a, OF n]
  from t have t1: "add_habit ''2024-03-10'' init_db 7 [] =
     (memo @ '' Please specify a habit name.'' @ newline @ ''Example: `/addhabit Drink water`'', init_db)"
    by (rule conjunct1)
  from t have t2: "length (get_user_habits (snd (add_habit ''2024-03-10'' init_db 7 [])) 7) =
      length (get_user_habits init_db 7)"
    by simp
  from t2 g have t3: "get_user_habits (snd (add_habit ''2024-03-10'' init_db 7 [])) 7 = []" by simp
  show ?thesis unfolding a b using t1 t3 c by simp
qed

end
